theory Spec2Isabelle
  imports Complex_Main
begin

section \<open>Scenario documents\<close>

text \<open>
  The engine (\<^verbatim>\<open>js/game-engine.js\<close>) works on scenario documents parsed from JSON.
  A field that the code tests for presence before it uses it is an \<open>option\<close>
  (\<open>None\<close> is JavaScript's \<^verbatim>\<open>undefined\<close>/\<^verbatim>\<open>null\<close>); a field the code reads
  without a test is plain.  A JSON object is the list of its own properties.
\<close>

record requirements =
  previousChoices :: "string list option"
  forbiddenChoices :: "string list option"

record choice =
  cid :: string
  ctext :: string
  cstrategy :: "string option"
  nextNode :: "string option"
  requirements :: "requirements option"

record node =
  ntype :: string
  content :: string
  choices :: "choice list option"

record metadata =
  title :: string
  description :: string

record scenario =
  sid :: "string option"
  metadata :: "metadata option"
  nodes :: "(string \<times> node) list option"

text \<open>
  \<^verbatim>\<open>!x\<close> on a string-valued field: \<^verbatim>\<open>undefined\<close> and the empty string are falsy.
  Objects and arrays are truthy whenever they are present.
\<close>

fun truthy :: "string option \<Rightarrow> bool" where
  "truthy None = False"
| "truthy (Some s) = (s \<noteq> [])"

subsection \<open>Reading a property of the nodes object\<close>

text \<open>
  \<^verbatim>\<open>nodes[key]\<close> on the object that \<^verbatim>\<open>JSON.parse\<close> built gives the own property
  when there is one, and otherwise what the object inherits from \<^verbatim>\<open>Object.prototype\<close>
  under that name: a function, or the prototype itself for \<^verbatim>\<open>__proto__\<close>.  An
  inherited member is truthy and has no \<^verbatim>\<open>choices\<close> and no \<^verbatim>\<open>type\<close>.
\<close>

definition objectPrototypeNames :: "string list" where
  "objectPrototypeNames =
     [''constructor'', ''hasOwnProperty'', ''isPrototypeOf'', ''propertyIsEnumerable'',
      ''toLocaleString'', ''toString'', ''valueOf'', ''__proto__'',
      ''__defineGetter__'', ''__defineSetter__'', ''__lookupGetter__'', ''__lookupSetter__'']"

datatype node_value = NoNode | InheritedMember | ANode node

definition property :: "(string \<times> node) list \<Rightarrow> string \<Rightarrow> node_value" where
  "property ns key =
     (case map_of ns key of
        Some nd \<Rightarrow> ANode nd
      | None \<Rightarrow> if key \<in> set objectPrototypeNames then InheritedMember else NoNode)"

subsection \<open>validateScenario\<close>

text \<open>
  The two nested \<^verbatim>\<open>for \<dots> of\<close> statements of \<^verbatim>\<open>validateScenario\<close>, each leaving with
  \<^verbatim>\<open>false\<close> at the first choice whose \<^verbatim>\<open>nextNode\<close> is truthy and is no property of
  the nodes object.
\<close>

fun check_choices :: "(string \<times> node) list \<Rightarrow> choice list \<Rightarrow> bool" where
  "check_choices ns [] = True"
| "check_choices ns (c # cs) =
     (case nextNode c of
        None \<Rightarrow> check_choices ns cs
      | Some n \<Rightarrow>
          if n \<noteq> [] \<and> property ns n = NoNode then False else check_choices ns cs)"

fun check_nodes :: "(string \<times> node) list \<Rightarrow> (string \<times> node) list \<Rightarrow> bool" where
  "check_nodes ns [] = True"
| "check_nodes ns ((nodeId, nd) # rest) =
     (case choices nd of
        None \<Rightarrow> check_nodes ns rest
      | Some cs \<Rightarrow> if check_choices ns cs then check_nodes ns rest else False)"

definition validateScenario :: "scenario \<Rightarrow> bool" where
  "validateScenario sc =
     (if \<not> truthy (sid sc) \<or> metadata sc = None \<or> nodes sc = None then False
      else case nodes sc of
             None \<Rightarrow> False
           | Some ns \<Rightarrow>
               if property ns ''start'' = NoNode then False else check_nodes ns ns)"

section \<open>Persistent storage\<close>

text \<open>
  \<^verbatim>\<open>StorageManager\<close> keeps one JSON document under a fixed \<^verbatim>\<open>localStorage\<close> key.
  The state is the manager's \<^verbatim>\<open>defaultState\<close> object, the stored item (\<open>None\<close> when
  the key is unset) and the outcomes of the coming \<^verbatim>\<open>setItem\<close> calls, in order:
  \<open>False\<close> is a call that throws (quota), and past the end of the list every call
  succeeds.  A stored document is one that \<^verbatim>\<open>saveData\<close> wrote, so it carries every
  field and \<^verbatim>\<open>mergeWithDefaults\<close> gives it back, in fresh objects.  Counters are
  integer-valued doubles, held as naturals.
\<close>

record history_entry =
  h_nodeId :: "string option"
  h_choiceId :: string
  h_choiceText :: string
  h_strategy :: "string option"
  h_timestamp :: string

record user_progress =
  p_currentScenario :: "string option"
  p_currentNode :: "string option"
  p_choiceHistory :: "history_entry list option"

record user_preferences =
  viewMode :: string
  autoSave :: bool
  soundEnabled :: bool

record statistics =
  totalChoicesMade :: nat
  scenariosCompleted :: nat
  strategiesUsed :: "(string \<times> nat) list"

record app_data =
  userProgress :: user_progress
  completedScenarios :: "string option list"
  userPreferences :: user_preferences
  statistics :: statistics

record storage =
  defaultState :: app_data
  item :: "app_data option"
  outcomes :: "bool list"

text \<open>The manager as its constructor builds it, with nothing stored.\<close>

definition storageManager :: storage where
  "storageManager =
     \<lparr> defaultState =
         \<lparr> userProgress =
             \<lparr> p_currentScenario = None, p_currentNode = None, p_choiceHistory = Some [] \<rparr>,
           completedScenarios = [],
           userPreferences =
             \<lparr> viewMode = ''visual-novel'', autoSave = True, soundEnabled = True \<rparr>,
           statistics =
             \<lparr> totalChoicesMade = 0, scenariosCompleted = 0,
               strategiesUsed =
                 [(''collaborating'', 0), (''compromising'', 0), (''competing'', 0),
                  (''accommodating'', 0), (''avoiding'', 0), (''active_listening'', 0)] \<rparr> \<rparr>,
       item = None,
       outcomes = [] \<rparr>"

text \<open>
  \<^verbatim>\<open>x++\<close> on an integer-valued double: exact below \<open>2^53\<close>; from there on the sum
  is rounded to the nearest double, ties to the even significand.
\<close>

definition plus_one :: "nat \<Rightarrow> nat" where
  "plus_one n =
     (if int n < 2 ^ 53 then n + 1
      else if int n < 2 ^ 54 \<and> n mod 4 = 2 then n + 2
      else n)"

definition loadData :: "storage \<Rightarrow> app_data" where
  "loadData st = (case item st of None \<Rightarrow> defaultState st | Some stored \<Rightarrow> stored)"

text \<open>
  When nothing is stored, \<^verbatim>\<open>loadData\<close> returns a shallow copy of
  \<^verbatim>\<open>defaultState\<close>: the \<^verbatim>\<open>completedScenarios\<close> array and the \<^verbatim>\<open>statistics\<close>
  object of the copy are those of \<^verbatim>\<open>defaultState\<close> itself, so what a method pushes
  or increments there is in \<^verbatim>\<open>defaultState\<close> as well.  An assignment to
  \<^verbatim>\<open>data.userProgress\<close> changes the copy only.
\<close>

definition shared :: "storage \<Rightarrow> app_data \<Rightarrow> storage" where
  "shared st data =
     (case item st of
        None \<Rightarrow>
          st\<lparr> defaultState := (defaultState st)
                \<lparr> completedScenarios := completedScenarios data,
                  statistics := statistics data \<rparr> \<rparr>
      | Some stored \<Rightarrow> st)"

definition saveData :: "storage \<Rightarrow> app_data \<Rightarrow> bool \<times> storage" where
  "saveData st data =
     (case outcomes st of
        [] \<Rightarrow> (True, st\<lparr> item := Some data \<rparr>)
      | ok # rest \<Rightarrow>
          if ok then (True, st\<lparr> item := Some data, outcomes := rest \<rparr>)
          else (False, st\<lparr> outcomes := rest \<rparr>))"

definition saveProgress ::
  "storage \<Rightarrow> string option \<Rightarrow> string option \<Rightarrow> history_entry list \<Rightarrow> bool \<times> storage" where
  "saveProgress st scenarioId nid hist =
     (let data = loadData st;
          data1 = data\<lparr> userProgress :=
                    \<lparr> p_currentScenario = scenarioId, p_currentNode = nid,
                      p_choiceHistory = Some hist \<rparr> \<rparr>;
          data2 = data1\<lparr> statistics :=
                    (statistics data1)\<lparr> totalChoicesMade := length hist \<rparr> \<rparr>
      in saveData (shared st data2) data2)"

definition markScenarioComplete :: "storage \<Rightarrow> string option \<Rightarrow> bool \<times> storage" where
  "markScenarioComplete st scenarioId =
     (let data = loadData st;
          data1 =
            (if scenarioId \<notin> set (completedScenarios data)
             then data\<lparr> completedScenarios := completedScenarios data @ [scenarioId],
                        statistics := (statistics data)
                          \<lparr> scenariosCompleted :=
                              plus_one (scenariosCompleted (statistics data)) \<rparr> \<rparr>
             else data);
          data2 = data1\<lparr> userProgress :=
                    \<lparr> p_currentScenario = None, p_currentNode = None,
                      p_choiceHistory = Some [] \<rparr> \<rparr>
      in saveData (shared st data1) data2)"

fun increment :: "string \<Rightarrow> (string \<times> nat) list \<Rightarrow> (string \<times> nat) list" where
  "increment k [] = []"
| "increment k ((k', v) # rest) =
     (if k' = k then (k', plus_one v) # rest else (k', v) # increment k rest)"

definition recordStrategyUsage :: "storage \<Rightarrow> string \<Rightarrow> bool \<times> storage" where
  "recordStrategyUsage st strat =
     (let data = loadData st in
      if map_of (strategiesUsed (statistics data)) strat \<noteq> None
      then let data1 = data\<lparr> statistics := (statistics data)
                  \<lparr> strategiesUsed := increment strat (strategiesUsed (statistics data)) \<rparr> \<rparr>
           in saveData (shared st data1) data1
      else (False, st))"

section \<open>The engine\<close>

text \<open>
  The fields of \<^verbatim>\<open>GameEngine\<close>.  A method is a function from the engine (and, where it
  writes progress, the storage) to its outcome and the state it leaves; a \<^verbatim>\<open>throw\<close> is
  \<open>Inl\<close> of the error, returned with the state as it is at the point of the throw.
  A node-valued result is a \<open>node_value\<close>, \<open>NoNode\<close> standing for \<^verbatim>\<open>null\<close> and
  \<^verbatim>\<open>undefined\<close>.
\<close>

record scenario_info =
  info_id :: string
  info_file :: string
  unlocked :: bool

record engine =
  currentScenario :: "scenario option"
  currentNode :: "string option"
  choiceHistory :: "history_entry list"
  scenarioIndex :: "scenario_info list option"
  isLoading :: bool

datatype error =
    NotInIndex "string option"
  | LoadFailed nat
  | FetchRejected
  | JsonSyntaxError
  | InvalidStructure
  | NoScenarioOrNode
  | NoChoices
  | ChoiceNotFound string
  | TypeError

text \<open>
  What \<^verbatim>\<open>fetch(file)\<close> followed by \<^verbatim>\<open>response.json()\<close> gives for a file name: the
  promise rejects, the response is not \<^verbatim>\<open>ok\<close> (with its status), the body is not
  JSON, or a document.
\<close>

datatype fetch_result = Rejected | Status nat | BadJson | Document scenario

definition constructor :: engine where
  "constructor =
     \<lparr> currentScenario = None, currentNode = Some ''start'', choiceHistory = [],
       scenarioIndex = None, isLoading = False \<rparr>"

definition loadScenario ::
  "(string \<Rightarrow> fetch_result) \<Rightarrow> engine \<Rightarrow> string option \<Rightarrow> (error + scenario) \<times> engine" where
  "loadScenario fetch e scenarioId =
     (let e1 = e\<lparr> isLoading := True \<rparr>; fin = e1\<lparr> isLoading := False \<rparr> in
      case scenarioIndex e1 of
        None \<Rightarrow> (Inl TypeError, fin)
      | Some idx \<Rightarrow>
          (case find (\<lambda>s. Some (info_id s) = scenarioId) idx of
             None \<Rightarrow> (Inl (NotInIndex scenarioId), fin)
           | Some scenarioInfo \<Rightarrow>
               (case fetch (info_file scenarioInfo) of
                  Rejected \<Rightarrow> (Inl FetchRejected, fin)
                | Status n \<Rightarrow> (Inl (LoadFailed n), fin)
                | BadJson \<Rightarrow> (Inl JsonSyntaxError, fin)
                | Document scenarioData \<Rightarrow>
                    if \<not> validateScenario scenarioData then (Inl InvalidStructure, fin)
                    else (Inr scenarioData,
                          e1\<lparr> currentScenario := Some scenarioData,
                              currentNode := Some ''start'',
                              choiceHistory := [],
                              isLoading := False \<rparr>))))"

definition getCurrentNode :: "engine \<Rightarrow> error + node_value" where
  "getCurrentNode e =
     (case currentScenario e of
        None \<Rightarrow> Inr NoNode
      | Some sc \<Rightarrow>
          (case currentNode e of
             None \<Rightarrow> Inr NoNode
           | Some n \<Rightarrow>
               if n = [] then Inr NoNode
               else (case nodes sc of
                       None \<Rightarrow> Inl TypeError
                     | Some ns \<Rightarrow> Inr (property ns n))))"

definition isScenarioComplete :: "engine \<Rightarrow> error + bool" where
  "isScenarioComplete e =
     (case getCurrentNode e of
        Inl err \<Rightarrow> Inl err
      | Inr NoNode \<Rightarrow> Inr False
      | Inr InheritedMember \<Rightarrow> Inr False
      | Inr (ANode nd) \<Rightarrow> Inr (ntype nd = ''resolution''))"

definition makeChoice ::
  "engine \<Rightarrow> storage \<Rightarrow> string \<Rightarrow> string \<Rightarrow> (error + node_value) \<times> engine \<times> storage" where
  "makeChoice e st choiceId now =
     (case currentScenario e of
        None \<Rightarrow> (Inl NoScenarioOrNode, e, st)
      | Some sc \<Rightarrow>
          if \<not> truthy (currentNode e) then (Inl NoScenarioOrNode, e, st)
          else
            (case getCurrentNode e of
               Inl err \<Rightarrow> (Inl err, e, st)
             | Inr NoNode \<Rightarrow> (Inl NoChoices, e, st)
             | Inr InheritedMember \<Rightarrow> (Inl NoChoices, e, st)
             | Inr (ANode currentNodeData) \<Rightarrow>
                 (case choices currentNodeData of
                    None \<Rightarrow> (Inl NoChoices, e, st)
                  | Some cs \<Rightarrow>
                      (case find (\<lambda>c. cid c = choiceId) cs of
                         None \<Rightarrow> (Inl (ChoiceNotFound choiceId), e, st)
                       | Some c \<Rightarrow>
                           let e1 = e\<lparr> choiceHistory := choiceHistory e @
                                      [\<lparr> h_nodeId = currentNode e, h_choiceId = choiceId,
                                         h_choiceText = ctext c, h_strategy = cstrategy c,
                                         h_timestamp = now \<rparr>] \<rparr>;
                               st1 = (case cstrategy c of
                                        None \<Rightarrow> st
                                      | Some s \<Rightarrow>
                                          if s \<noteq> [] then snd (recordStrategyUsage st s)
                                          else st);
                               e2 = e1\<lparr> currentNode := nextNode c \<rparr>;
                               st2 = snd (saveProgress st1 (sid sc) (currentNode e2)
                                            (choiceHistory e2))
                           in (case getCurrentNode e2 of
                                 Inl err \<Rightarrow> (Inl err, e2, st2)
                               | Inr nextNodeData \<Rightarrow>
                                   (case isScenarioComplete e2 of
                                      Inl err \<Rightarrow> (Inl err, e2, st2)
                                    | Inr isComplete \<Rightarrow>
                                        (Inr nextNodeData, e2,
                                         if isComplete
                                         then snd (markScenarioComplete st2 (sid sc))
                                         else st2)))))))"

definition goBack :: "engine \<Rightarrow> storage \<Rightarrow> (error + node_value) \<times> engine \<times> storage" where
  "goBack e st =
     (if length (choiceHistory e) = 0 then (Inr NoNode, e, st)
      else
        let lastChoice = last (choiceHistory e);
            e1 = e\<lparr> choiceHistory := butlast (choiceHistory e) \<rparr>;
            e2 = e1\<lparr> currentNode := h_nodeId lastChoice \<rparr>
        in (case currentScenario e2 of
              None \<Rightarrow> (Inl TypeError, e2, st)
            | Some sc \<Rightarrow>
                let st1 = snd (saveProgress st (sid sc) (currentNode e2) (choiceHistory e2))
                in (case getCurrentNode e2 of
                      Inl err \<Rightarrow> (Inl err, e2, st1)
                    | Inr nd \<Rightarrow> (Inr nd, e2, st1))))"

text \<open>
  The callback that \<^verbatim>\<open>getAvailableChoices\<close> passes to \<^verbatim>\<open>filter\<close>, with its two
  early \<^verbatim>\<open>return false\<close>.  An array is truthy, so a requirement list is tested for
  presence only.
\<close>

definition choiceFilter :: "history_entry list \<Rightarrow> choice \<Rightarrow> bool" where
  "choiceFilter hist c =
     (case requirements c of
        None \<Rightarrow> True
      | Some r \<Rightarrow>
          if (case previousChoices r of
                None \<Rightarrow> False
              | Some ps \<Rightarrow>
                  \<not> list_all (\<lambda>reqChoice. reqChoice \<in> set (map h_choiceId hist)) ps)
          then False
          else if (case forbiddenChoices r of
                     None \<Rightarrow> False
                   | Some fs \<Rightarrow>
                       list_ex (\<lambda>forbiddenChoice.
                         forbiddenChoice \<in> set (map h_choiceId hist)) fs)
          then False
          else True)"

definition getAvailableChoices :: "engine \<Rightarrow> (error + choice list) \<times> engine" where
  "getAvailableChoices e =
     (case getCurrentNode e of
        Inl err \<Rightarrow> (Inl err, e)
      | Inr NoNode \<Rightarrow> (Inr [], e)
      | Inr InheritedMember \<Rightarrow> (Inr [], e)
      | Inr (ANode nd) \<Rightarrow>
          (case choices nd of
             None \<Rightarrow> (Inr [], e)
           | Some cs \<Rightarrow> (Inr (filter (choiceFilter (choiceHistory e)) cs), e)))"

definition canGoBack :: "engine \<Rightarrow> bool" where
  "canGoBack e = (length (choiceHistory e) > 0)"

text \<open>
  \<^verbatim>\<open>getProgress\<close>.  The percentage is a JavaScript double in the source; here it is a
  rational, so the arithmetic is exact.  \<^verbatim>\<open>Object.keys\<close> counts each property once.
  Division of a positive number by zero gives \<^verbatim>\<open>Infinity\<close> in the source, of which
  \<^verbatim>\<open>Math.min\<close> with 100 is 100.
\<close>

record progress =
  g_currentNode :: "string option"
  choicesMade :: nat
  progressPercent :: rat
  g_canGoBack :: bool
  isComplete :: bool

definition getProgress :: "engine \<Rightarrow> error + progress option" where
  "getProgress e =
     (case currentScenario e of
        None \<Rightarrow> Inr None
      | Some sc \<Rightarrow>
          (case nodes sc of
             None \<Rightarrow> Inl TypeError
           | Some ns \<Rightarrow>
               let totalNodes = length (remdups (map fst ns));
                   currentProgress = length (choiceHistory e) + 1
               in (case isScenarioComplete e of
                     Inl err \<Rightarrow> Inl err
                   | Inr resolved \<Rightarrow>
                       Inr (Some
                         \<lparr> g_currentNode = currentNode e,
                           choicesMade = length (choiceHistory e),
                           progressPercent =
                             (if totalNodes = 0 then 100
                              else min (of_nat currentProgress / of_nat totalNodes * 100) 100),
                           g_canGoBack = canGoBack e,
                           isComplete = resolved \<rparr>))))"

definition restartScenario :: "engine \<Rightarrow> storage \<Rightarrow> engine \<times> storage" where
  "restartScenario e st =
     (case currentScenario e of
        None \<Rightarrow> (e, st)
      | Some sc \<Rightarrow>
          let e1 = e\<lparr> currentNode := Some ''start'' \<rparr>;
              e2 = e1\<lparr> choiceHistory := [] \<rparr>
          in (e2, snd (saveProgress st (sid sc) (currentNode e2) (choiceHistory e2))))"

definition resumeFromProgress ::
  "(string \<Rightarrow> fetch_result) \<Rightarrow> engine \<Rightarrow> user_progress \<Rightarrow> (error + node_value) \<times> engine" where
  "resumeFromProgress fetch e savedProgress =
     (case loadScenario fetch e (p_currentScenario savedProgress) of
        (Inl err, e1) \<Rightarrow> (Inl err, e1)
      | (Inr scenarioData, e1) \<Rightarrow>
          let e2 = e1\<lparr> currentNode := p_currentNode savedProgress \<rparr>;
              e3 = e2\<lparr> choiceHistory :=
                     (case p_choiceHistory savedProgress of None \<Rightarrow> [] | Some h \<Rightarrow> h) \<rparr>
          in (case getCurrentNode e3 of
                Inl err \<Rightarrow> (Inl err, e3)
              | Inr nd \<Rightarrow> (Inr nd, e3)))"

section \<open>Sequences of calls and reachable states\<close>

text \<open>
  A run of \<^verbatim>\<open>makeChoice\<close> calls, each with an id that \<^verbatim>\<open>getAvailableChoices\<close> returns
  at that moment and each returning normally; \<open>None\<close> when a call of the run does not.
  A step is the choice id and the clock reading of the call.
\<close>

fun advance_all :: "engine \<times> storage \<Rightarrow> (string \<times> string) list \<Rightarrow> (engine \<times> storage) option" where
  "advance_all s [] = Some s"
| "advance_all (e, st) ((choiceId, now) # rest) =
     (case fst (getAvailableChoices e) of
        Inl err \<Rightarrow> None
      | Inr available \<Rightarrow>
          if choiceId \<in> set (map cid available)
          then (case makeChoice e st choiceId now of
                  (Inl err, s') \<Rightarrow> None
                | (Inr nd, s') \<Rightarrow> advance_all s' rest)
          else None)"

definition goBack_step :: "engine \<times> storage \<Rightarrow> engine \<times> storage" where
  "goBack_step s = snd (goBack (fst s) (snd s))"

text \<open>
  What a call of \<^verbatim>\<open>makeChoice\<close> that finds the choice \<open>c\<close> leaves behind: the entry
  it pushes, the engine after the move, and the storage after the writes.
\<close>

definition entry_of :: "engine \<Rightarrow> choice \<Rightarrow> string \<Rightarrow> string \<Rightarrow> history_entry" where
  "entry_of e c choiceId now =
     \<lparr> h_nodeId = currentNode e, h_choiceId = choiceId, h_choiceText = ctext c,
       h_strategy = cstrategy c, h_timestamp = now \<rparr>"

definition moved :: "engine \<Rightarrow> choice \<Rightarrow> string \<Rightarrow> string \<Rightarrow> engine" where
  "moved e c choiceId now =
     e\<lparr> choiceHistory := choiceHistory e @ [entry_of e c choiceId now],
        currentNode := nextNode c \<rparr>"

definition stored_after ::
  "engine \<Rightarrow> storage \<Rightarrow> scenario \<Rightarrow> choice \<Rightarrow> string \<Rightarrow> string \<Rightarrow> storage" where
  "stored_after e st sc c choiceId now =
     (let st1 = (case cstrategy c of
                   None \<Rightarrow> st
                 | Some s \<Rightarrow> if s \<noteq> [] then snd (recordStrategyUsage st s) else st);
          st2 = snd (saveProgress st1 (sid sc) (nextNode c)
                       (choiceHistory e @ [entry_of e c choiceId now]))
      in case getCurrentNode (moved e c choiceId now) of
           Inr (ANode nd) \<Rightarrow>
             if ntype nd = ''resolution'' then snd (markScenarioComplete st2 (sid sc)) else st2
         | _ \<Rightarrow> st2)"

text \<open>
  The states of an engine on which \<^verbatim>\<open>loadScenario\<close> has adopted the scenario \<open>sc\<close>,
  followed by any calls of \<^verbatim>\<open>makeChoice\<close>, \<^verbatim>\<open>goBack\<close> and \<^verbatim>\<open>restartScenario\<close>.
\<close>

inductive reachable :: "scenario \<Rightarrow> engine \<times> storage \<Rightarrow> bool" for sc :: scenario where
  loaded: "loadScenario fetch e0 scenarioId = (Inr sc, e) \<Longrightarrow> reachable sc (e, st)"
| advanced: "reachable sc (e, st) \<Longrightarrow> makeChoice e st choiceId now = (r, s') \<Longrightarrow> reachable sc s'"
| went_back: "reachable sc (e, st) \<Longrightarrow> goBack e st = (r, s') \<Longrightarrow> reachable sc s'"
| restarted: "reachable sc (e, st) \<Longrightarrow> restartScenario e st = s' \<Longrightarrow> reachable sc s'"

definition currentNodeValid :: "engine \<Rightarrow> bool" where
  "currentNodeValid e =
     (case currentScenario e of
        None \<Rightarrow> False
      | Some sc \<Rightarrow>
          (case nodes sc of
             None \<Rightarrow> False
           | Some ns \<Rightarrow>
               (case currentNode e of
                  None \<Rightarrow> False
                | Some n \<Rightarrow> map_of ns n \<noteq> None)))"

section \<open>The specification's wording\<close>

definition listed :: "string list option \<Rightarrow> string list" where
  "listed l = (case l of None \<Rightarrow> [] | Some xs \<Rightarrow> xs)"

definition nodeChoices :: "node_value \<Rightarrow> choice list" where
  "nodeChoices nd =
     (case nd of
        NoNode \<Rightarrow> []
      | InheritedMember \<Rightarrow> []
      | ANode n \<Rightarrow> (case choices n of None \<Rightarrow> [] | Some cs \<Rightarrow> cs))"

text \<open>The choice list of the current node as the scenario gives it, empty when there is none.\<close>

definition rawChoices :: "engine \<Rightarrow> choice list" where
  "rawChoices e = (case getCurrentNode e of Inl err \<Rightarrow> [] | Inr nd \<Rightarrow> nodeChoices nd)"

text \<open>
  A choice is available iff it has no requirements, or every id of
  \<^verbatim>\<open>previousChoices\<close> is the \<^verbatim>\<open>choiceId\<close> of a history entry and no id of
  \<^verbatim>\<open>forbiddenChoices\<close> is.
\<close>

definition spec_available :: "history_entry list \<Rightarrow> choice \<Rightarrow> bool" where
  "spec_available hist c =
     (case requirements c of
        None \<Rightarrow> True
      | Some r \<Rightarrow>
          (\<forall>i \<in> set (listed (previousChoices r)). \<exists>h \<in> set hist. h_choiceId h = i) \<and>
          (\<forall>i \<in> set (listed (forbiddenChoices r)). \<not> (\<exists>h \<in> set hist. h_choiceId h = i)))"

text \<open>
  The structural condition as the specification words it: the three top-level fields are
  there, there is a node \<^verbatim>\<open>start\<close>, and the \<^verbatim>\<open>nextNode\<close> of every choice of every
  node, if present, names a node of the scenario.
\<close>

definition spec_valid :: "scenario \<Rightarrow> bool" where
  "spec_valid sc =
     (sid sc \<noteq> None \<and> metadata sc \<noteq> None \<and>
      (case nodes sc of
         None \<Rightarrow> False
       | Some ns \<Rightarrow>
           map_of ns ''start'' \<noteq> None \<and>
           (\<forall>(nodeId, nd) \<in> set ns. \<forall>c \<in> set (nodeChoices (ANode nd)).
              case nextNode c of None \<Rightarrow> True | Some n \<Rightarrow> map_of ns n \<noteq> None)))"

text \<open>
  The same condition with the two presence tests as the code makes them: the id is a
  non-empty string, and only a \<^verbatim>\<open>nextNode\<close> that is present and non-empty has to name
  a node.
\<close>

definition structurally_valid :: "scenario \<Rightarrow> bool" where
  "structurally_valid sc =
     (truthy (sid sc) \<and> metadata sc \<noteq> None \<and>
      (case nodes sc of
         None \<Rightarrow> False
       | Some ns \<Rightarrow>
           map_of ns ''start'' \<noteq> None \<and>
           (\<forall>(nodeId, nd) \<in> set ns. \<forall>c \<in> set (nodeChoices (ANode nd)).
              case nextNode c of
                None \<Rightarrow> True
              | Some n \<Rightarrow> n = [] \<or> map_of ns n \<noteq> None)))"

text \<open>No choice of the scenario sends to a name that the nodes object only inherits.\<close>

definition noInheritedTarget :: "scenario \<Rightarrow> bool" where
  "noInheritedTarget sc =
     (case nodes sc of
        None \<Rightarrow> True
      | Some ns \<Rightarrow>
          (\<forall>(nodeId, nd) \<in> set ns. \<forall>c \<in> set (nodeChoices (ANode nd)).
             case nextNode c of
               None \<Rightarrow> True
             | Some n \<Rightarrow> property ns n \<noteq> InheritedMember))"

definition everyChoiceHasNext :: "scenario \<Rightarrow> bool" where
  "everyChoiceHasNext sc =
     (case nodes sc of
        None \<Rightarrow> True
      | Some ns \<Rightarrow>
          (\<forall>(nodeId, nd) \<in> set ns. \<forall>c \<in> set (nodeChoices (ANode nd)). truthy (nextNode c)))"

section \<open>Example content\<close>

text \<open>
  The scenario of the specification's walk-through: \<^verbatim>\<open>start\<close> leads by choice
  \<^verbatim>\<open>A\<close> to \<^verbatim>\<open>nodeX\<close>, which leads by \<^verbatim>\<open>B\<close> to the resolution \<^verbatim>\<open>nodeY\<close>;
  choice \<^verbatim>\<open>C\<close> on \<^verbatim>\<open>start\<close> requires \<^verbatim>\<open>A\<close> to have been made, and choice
  \<^verbatim>\<open>D\<close> on \<^verbatim>\<open>nodeX\<close> is forbidden once \<^verbatim>\<open>A\<close> was.
\<close>

definition choiceA :: choice where
  "choiceA =
     \<lparr> cid = ''A'', ctext = ''Talk'', cstrategy = Some ''collaborating'',
       nextNode = Some ''nodeX'', requirements = None \<rparr>"

definition choiceC :: choice where
  "choiceC =
     \<lparr> cid = ''C'', ctext = ''Follow up'', cstrategy = None, nextNode = Some ''nodeY'',
       requirements = Some \<lparr> previousChoices = Some [''A''], forbiddenChoices = None \<rparr> \<rparr>"

definition choiceB :: choice where
  "choiceB =
     \<lparr> cid = ''B'', ctext = ''Agree'', cstrategy = None, nextNode = Some ''nodeY'',
       requirements = None \<rparr>"

definition choiceD :: choice where
  "choiceD =
     \<lparr> cid = ''D'', ctext = ''Start over'', cstrategy = Some ''avoiding'',
       nextNode = Some ''start'',
       requirements = Some \<lparr> previousChoices = None, forbiddenChoices = Some [''A''] \<rparr> \<rparr>"

definition nodeStart :: node where
  "nodeStart =
     \<lparr> ntype = ''scene'', content = ''intro'', choices = Some [choiceA, choiceC] \<rparr>"

definition nodeX :: node where
  "nodeX = \<lparr> ntype = ''scene'', content = ''middle'', choices = Some [choiceB, choiceD] \<rparr>"

definition nodeY :: node where
  "nodeY = \<lparr> ntype = ''resolution'', content = ''end'', choices = None \<rparr>"

definition demoScenario :: scenario where
  "demoScenario =
     \<lparr> sid = Some ''scenario-001'',
       metadata = Some \<lparr> title = ''The Email Misunderstanding'', description = ''none'' \<rparr>,
       nodes = Some [(''start'', nodeStart), (''nodeX'', nodeX), (''nodeY'', nodeY)] \<rparr>"

text \<open>A scenario whose only choice has no \<^verbatim>\<open>nextNode\<close>.\<close>

definition gapScenario :: scenario where
  "gapScenario =
     \<lparr> sid = Some ''scenario-gap'',
       metadata = Some \<lparr> title = ''Gap'', description = ''none'' \<rparr>,
       nodes = Some
         [(''start'',
           \<lparr> ntype = ''scene'', content = ''intro'',
             choices = Some
               [\<lparr> cid = ''a'', ctext = ''Leave'', cstrategy = None,
                   nextNode = None, requirements = None \<rparr>] \<rparr>)] \<rparr>"

text \<open>A scenario whose only choice names a node that is not there.\<close>

definition danglingScenario :: scenario where
  "danglingScenario =
     \<lparr> sid = Some ''scenario-bad'',
       metadata = Some \<lparr> title = ''Dangling'', description = ''none'' \<rparr>,
       nodes = Some
         [(''start'',
           \<lparr> ntype = ''scene'', content = ''intro'',
             choices = Some
               [\<lparr> cid = ''a'', ctext = ''Leave'', cstrategy = None,
                   nextNode = Some ''missing'', requirements = None \<rparr>] \<rparr>)] \<rparr>"

text \<open>A scenario whose \<^verbatim>\<open>id\<close> is the empty string, with nothing else amiss.\<close>

definition emptyIdScenario :: scenario where
  "emptyIdScenario =
     \<lparr> sid = Some [],
       metadata = Some \<lparr> title = ''Unnamed'', description = ''none'' \<rparr>,
       nodes = Some
         [(''start'', \<lparr> ntype = ''resolution'', content = ''end'', choices = None \<rparr>)] \<rparr>"

definition demoIndex :: "scenario_info list" where
  "demoIndex =
     [\<lparr> info_id = ''scenario-001'', info_file = ''scenarios/scenario-001.json'',
         unlocked = True \<rparr>,
      \<lparr> info_id = ''scenario-gap'', info_file = ''scenarios/scenario-gap.json'',
         unlocked = True \<rparr>,
      \<lparr> info_id = ''scenario-bad'', info_file = ''scenarios/scenario-bad.json'',
         unlocked = True \<rparr>,
      \<lparr> info_id = ''scenario-404'', info_file = ''scenarios/scenario-404.json'',
         unlocked = True \<rparr>]"

definition demoFetch :: "string \<Rightarrow> fetch_result" where
  "demoFetch f =
     (if f = ''scenarios/scenario-001.json'' then Document demoScenario
      else if f = ''scenarios/scenario-gap.json'' then Document gapScenario
      else if f = ''scenarios/scenario-bad.json'' then Document danglingScenario
      else Status 404)"

definition readyEngine :: engine where
  "readyEngine = constructor\<lparr> scenarioIndex := Some demoIndex \<rparr>"

definition demoEngine :: engine where
  "demoEngine = snd (loadScenario demoFetch readyEngine (Some ''scenario-001''))"

definition gapEngine :: engine where
  "gapEngine = snd (loadScenario demoFetch readyEngine (Some ''scenario-gap''))"

text \<open>
  The walk-through: from \<^verbatim>\<open>start\<close>, choice \<^verbatim>\<open>A\<close> leads to \<^verbatim>\<open>nodeX\<close> and choice
  \<^verbatim>\<open>B\<close> to the resolution, starting with nothing stored.
\<close>

definition demoEngineX :: engine where
  "demoEngineX = fst (snd (makeChoice demoEngine storageManager ''A'' ''t0''))"

definition demoStoreX :: storage where
  "demoStoreX = snd (snd (makeChoice demoEngine storageManager ''A'' ''t0''))"

definition demoEngineY :: engine where
  "demoEngineY = fst (snd (makeChoice demoEngineX demoStoreX ''B'' ''t1''))"

definition demoStoreY :: storage where
  "demoStoreY = snd (snd (makeChoice demoEngineX demoStoreX ''B'' ''t1''))"


text \<open>A snapshot whose node ids are not in the scenario it names, and one whose scenario
  cannot be fetched.\<close>

definition staleSnapshot :: user_progress where
  "staleSnapshot =
     \<lparr> p_currentScenario = Some ''scenario-001'', p_currentNode = Some ''ghost'',
       p_choiceHistory = Some
         [\<lparr> h_nodeId = Some ''gone'', h_choiceId = ''Q'', h_choiceText = ''Old'',
            h_strategy = None, h_timestamp = ''t0'' \<rparr>] \<rparr>"

definition lostSnapshot :: user_progress where
  "lostSnapshot =
     \<lparr> p_currentScenario = Some ''scenario-404'', p_currentNode = Some ''start'',
       p_choiceHistory = None \<rparr>"

section \<open>Validation and loading\<close>

lemma property_NoNode_iff:
  "property ns key = NoNode \<longleftrightarrow> map_of ns key = None \<and> key \<notin> set objectPrototypeNames"
  by (simp add: property_def split: option.splits)

lemma property_ANode_iff: "property ns key = ANode nd \<longleftrightarrow> map_of ns key = Some nd"
  by (simp add: property_def split: option.splits)

lemma property_start: "property ns ''start'' = NoNode \<longleftrightarrow> map_of ns ''start'' = None"
  by (simp add: property_NoNode_iff objectPrototypeNames_def)

lemma property_own:
  "property ns key \<noteq> InheritedMember \<Longrightarrow> property ns key \<noteq> NoNode \<longleftrightarrow> map_of ns key \<noteq> None"
  by (auto simp add: property_def split: option.splits if_splits)

lemma check_choices_iff:
  "check_choices ns cs \<longleftrightarrow>
     (\<forall>c \<in> set cs. case nextNode c of None \<Rightarrow> True | Some n \<Rightarrow> n = [] \<or> property ns n \<noteq> NoNode)"
  by (induction cs) (auto split: option.splits)

lemma check_nodes_iff:
  "check_nodes ns rest \<longleftrightarrow>
     (\<forall>(nodeId, nd) \<in> set rest. \<forall>c \<in> set (nodeChoices (ANode nd)).
        case nextNode c of None \<Rightarrow> True | Some n \<Rightarrow> n = [] \<or> property ns n \<noteq> NoNode)"
proof (induction rest)
  case Nil
  show ?case by simp
next
  case (Cons p rest)
  obtain nodeId nd where p: "p = (nodeId, nd)" by (cases p)
  show ?case
    unfolding p using Cons.IH
    by (cases "choices nd") (auto simp add: nodeChoices_def check_choices_iff)
qed

text \<open>What \<^verbatim>\<open>validateScenario\<close> decides, inherited names included.\<close>

lemma validateScenario_exact:
  "validateScenario sc \<longleftrightarrow>
     truthy (sid sc) \<and> metadata sc \<noteq> None \<and>
     (case nodes sc of
        None \<Rightarrow> False
      | Some ns \<Rightarrow>
          map_of ns ''start'' \<noteq> None \<and>
          (\<forall>(nodeId, nd) \<in> set ns. \<forall>c \<in> set (nodeChoices (ANode nd)).
             case nextNode c of None \<Rightarrow> True | Some n \<Rightarrow> n = [] \<or> property ns n \<noteq> NoNode))"
  by (cases "nodes sc")
     (simp_all add: validateScenario_def check_nodes_iff property_start)

lemma validateScenario_iff:
  assumes "noInheritedTarget sc"
  shows "validateScenario sc \<longleftrightarrow> structurally_valid sc"
proof (cases "nodes sc")
  case None
  then show ?thesis by (simp add: validateScenario_exact structurally_valid_def)
next
  case (Some ns)
  have "(case nextNode c of None \<Rightarrow> True | Some n \<Rightarrow> n = [] \<or> property ns n \<noteq> NoNode) \<longleftrightarrow>
        (case nextNode c of None \<Rightarrow> True | Some n \<Rightarrow> n = [] \<or> map_of ns n \<noteq> None)"
    if "(nodeId, nd) \<in> set ns" "c \<in> set (nodeChoices (ANode nd))" for nodeId nd c
  proof (cases "nextNode c")
    case None
    then show ?thesis by simp
  next
    case (Some n)
    from assms \<open>nodes sc = Some ns\<close> that Some have "property ns n \<noteq> InheritedMember"
      by (fastforce simp add: noInheritedTarget_def)
    from property_own [OF this] Some show ?thesis by simp
  qed
  then show ?thesis
    using Some by (auto simp add: validateScenario_exact structurally_valid_def)
qed

lemma validateScenario_nodes:
  assumes "validateScenario sc"
  obtains ns where "nodes sc = Some ns" "map_of ns ''start'' \<noteq> None"
  using assms unfolding validateScenario_exact
  by (cases "nodes sc") auto

lemma loadScenario_fetched:
  assumes "scenarioIndex e = Some idx"
    and "find (\<lambda>s. Some (info_id s) = scenarioId) idx = Some info"
    and "fetch (info_file info) = Document sc"
  shows "loadScenario fetch e scenarioId =
           (if validateScenario sc
            then (Inr sc, e\<lparr> currentScenario := Some sc, currentNode := Some ''start'',
                              choiceHistory := [], isLoading := False \<rparr>)
            else (Inl InvalidStructure, e\<lparr> isLoading := False \<rparr>))"
  using assms by (simp add: loadScenario_def Let_def)

lemma loadScenario_InrD:
  assumes "loadScenario fetch e scenarioId = (Inr sc, e')"
  shows "validateScenario sc \<and>
         e' = e\<lparr> currentScenario := Some sc, currentNode := Some ''start'',
                  choiceHistory := [], isLoading := False \<rparr>"
  using assms unfolding loadScenario_def Let_def
  by (auto split: option.splits fetch_result.splits if_splits)

lemma loadScenario_InlD:
  assumes "loadScenario fetch e scenarioId = (Inl err, e')"
  shows "e' = e\<lparr> isLoading := False \<rparr>"
  using assms unfolding loadScenario_def Let_def
  by (auto split: option.splits fetch_result.splits if_splits)

text \<open>
  C3, as the code has it.  For a document in which no choice sends to a name that the
  nodes object only inherits, \<^verbatim>\<open>validateScenario\<close> accepts exactly when the
  \<^verbatim>\<open>id\<close> is a non-empty string, \<^verbatim>\<open>metadata\<close> and \<^verbatim>\<open>nodes\<close> are present, there is a
  node \<^verbatim>\<open>start\<close>, and every \<^verbatim>\<open>nextNode\<close> that is present and non-empty names a
  node.  When the index entry is found and the file is fetched, \<^verbatim>\<open>loadScenario\<close>
  returns the document if \<^verbatim>\<open>validateScenario\<close> accepts it, and otherwise throws
  \<^verbatim>\<open>Invalid scenario structure\<close>.  Whatever makes \<^verbatim>\<open>loadScenario\<close> throw, the
  active scenario, the current node and the history are as they were.
\<close>

theorem validate_and_load:
  "(noInheritedTarget sc \<longrightarrow> (validateScenario sc \<longleftrightarrow> structurally_valid sc)) \<and>
   (scenarioIndex e = Some idx \<and>
    find (\<lambda>s. Some (info_id s) = scenarioId) idx = Some info \<and>
    fetch (info_file info) = Document sc \<longrightarrow>
      (if validateScenario sc
       then fst (loadScenario fetch e scenarioId) = Inr sc
       else fst (loadScenario fetch e scenarioId) = Inl InvalidStructure)) \<and>
   (\<forall>err. fst (loadScenario fetch e scenarioId) = Inl err \<longrightarrow>
      currentScenario (snd (loadScenario fetch e scenarioId)) = currentScenario e \<and>
      currentNode (snd (loadScenario fetch e scenarioId)) = currentNode e \<and>
      choiceHistory (snd (loadScenario fetch e scenarioId)) = choiceHistory e)"
proof (intro conjI impI allI)
  assume "noInheritedTarget sc"
  then show "validateScenario sc \<longleftrightarrow> structurally_valid sc"
    by (rule validateScenario_iff)
next
  fix err assume "fst (loadScenario fetch e scenarioId) = Inl err"
  then have "loadScenario fetch e scenarioId = (Inl err, snd (loadScenario fetch e scenarioId))"
    by (metis prod.collapse)
  from loadScenario_InlD [OF this]
  have l: "snd (loadScenario fetch e scenarioId) = e\<lparr> isLoading := False \<rparr>" .
  show "currentScenario (snd (loadScenario fetch e scenarioId)) = currentScenario e"
    "currentNode (snd (loadScenario fetch e scenarioId)) = currentNode e"
    "choiceHistory (snd (loadScenario fetch e scenarioId)) = choiceHistory e"
    by (simp_all add: l)
next
  assume "scenarioIndex e = Some idx \<and>
    find (\<lambda>s. Some (info_id s) = scenarioId) idx = Some info \<and>
    fetch (info_file info) = Document sc"
  then have "loadScenario fetch e scenarioId =
           (if validateScenario sc
            then (Inr sc, e\<lparr> currentScenario := Some sc, currentNode := Some ''start'',
                              choiceHistory := [], isLoading := False \<rparr>)
            else (Inl InvalidStructure, e\<lparr> isLoading := False \<rparr>))"
    by (intro loadScenario_fetched) auto
  then show "if validateScenario sc
       then fst (loadScenario fetch e scenarioId) = Inr sc
       else fst (loadScenario fetch e scenarioId) = Inl InvalidStructure"
    by simp
qed

theorem validate_and_load_witness:
  "noInheritedTarget danglingScenario \<and>
   scenarioIndex readyEngine = Some demoIndex \<and>
   find (\<lambda>s. Some (info_id s) = Some ''scenario-bad'') demoIndex =
     Some \<lparr> info_id = ''scenario-bad'', info_file = ''scenarios/scenario-bad.json'',
            unlocked = True \<rparr> \<and>
   demoFetch ''scenarios/scenario-bad.json'' = Document danglingScenario \<and>
   \<not> structurally_valid danglingScenario \<and>
   \<not> validateScenario danglingScenario \<and>
   fst (loadScenario demoFetch readyEngine (Some ''scenario-bad'')) = Inl InvalidStructure \<and>
   currentScenario (snd (loadScenario demoFetch readyEngine (Some ''scenario-bad''))) = None \<and>
   currentNode (snd (loadScenario demoFetch readyEngine (Some ''scenario-bad''))) =
     Some ''start'' \<and>
   choiceHistory (snd (loadScenario demoFetch readyEngine (Some ''scenario-bad''))) = []"
proof -
  let ?info = "\<lparr> info_id = ''scenario-bad'', info_file = ''scenarios/scenario-bad.json'',
                 unlocked = True \<rparr>"
  have h0: "noInheritedTarget danglingScenario"
    by (simp add: noInheritedTarget_def danglingScenario_def nodeChoices_def property_def
          objectPrototypeNames_def)
  have h1: "scenarioIndex readyEngine = Some demoIndex"
    by (simp add: readyEngine_def)
  have h2: "find (\<lambda>s. Some (info_id s) = Some ''scenario-bad'') demoIndex = Some ?info"
    by (simp add: demoIndex_def)
  have h3: "demoFetch (info_file ?info) = Document danglingScenario"
    by (simp add: demoFetch_def)
  have h4: "\<not> structurally_valid danglingScenario"
    by (simp add: structurally_valid_def danglingScenario_def nodeChoices_def)
  have c0: "currentScenario readyEngine = None" "currentNode readyEngine = Some ''start''"
    "choiceHistory readyEngine = []"
    by (simp_all add: readyEngine_def constructor_def)
  note t = validate_and_load [of danglingScenario readyEngine demoIndex "Some ''scenario-bad''"
      ?info demoFetch]
  from t h0 h4 have h5: "\<not> validateScenario danglingScenario" by blast
  from t h1 h2 h3 h5
  have f: "fst (loadScenario demoFetch readyEngine (Some ''scenario-bad'')) = Inl InvalidStructure"
    by simp
  with t have
    "currentScenario (snd (loadScenario demoFetch readyEngine (Some ''scenario-bad''))) =
       currentScenario readyEngine \<and>
     currentNode (snd (loadScenario demoFetch readyEngine (Some ''scenario-bad''))) =
       currentNode readyEngine \<and>
     choiceHistory (snd (loadScenario demoFetch readyEngine (Some ''scenario-bad''))) =
       choiceHistory readyEngine"
    by blast
  with h0 h1 h2 h3 h4 h5 f c0 show ?thesis by simp
qed

text \<open>
  The condition of C3 as it is worded does not characterise acceptance: \<open>emptyIdScenario\<close>
  has the three top-level fields and a node \<^verbatim>\<open>start\<close>, and it has no choice at all, yet
  \<^verbatim>\<open>validateScenario\<close> rejects it, because its \<^verbatim>\<open>id\<close> is the empty string.
\<close>

theorem validate_rejects_empty_id:
  "spec_valid emptyIdScenario \<and> \<not> validateScenario emptyIdScenario"
  by (simp add: validateScenario_def spec_valid_def emptyIdScenario_def nodeChoices_def)

section \<open>makeChoice\<close>

lemma getCurrentNode_SomeD:
  assumes "getCurrentNode e = Inr (ANode nd)"
  obtains sc ns n where "currentScenario e = Some sc" "nodes sc = Some ns"
    "currentNode e = Some n" "n \<noteq> []" "map_of ns n = Some nd"
  using assms unfolding getCurrentNode_def
  by (auto simp add: property_ANode_iff split: option.splits if_splits)

lemma getCurrentNode_loaded:
  assumes "currentScenario e = Some sc" "nodes sc = Some ns"
  shows "getCurrentNode e =
           Inr (case currentNode e of None \<Rightarrow> NoNode
                | Some n \<Rightarrow> if n = [] then NoNode else property ns n)"
  using assms unfolding getCurrentNode_def
  by (auto split: option.splits)

lemma isScenarioComplete_loaded:
  assumes "getCurrentNode e = Inr r"
  shows "isScenarioComplete e =
           Inr (case r of ANode nd \<Rightarrow> ntype nd = ''resolution'' | _ \<Rightarrow> False)"
  using assms unfolding isScenarioComplete_def
  by (cases r) simp_all

lemma moved_fields [simp]:
  "currentScenario (moved e c i now) = currentScenario e"
  "currentNode (moved e c i now) = nextNode c"
  "choiceHistory (moved e c i now) = choiceHistory e @ [entry_of e c i now]"
  "scenarioIndex (moved e c i now) = scenarioIndex e"
  "isLoading (moved e c i now) = isLoading e"
  by (simp_all add: moved_def)

lemma makeChoice_found:
  assumes sc: "currentScenario e = Some sc"
    and nd: "getCurrentNode e = Inr (ANode nd)"
    and cs: "choices nd = Some cs"
    and c: "find (\<lambda>c. cid c = choiceId) cs = Some c"
  shows "makeChoice e st choiceId now =
           (getCurrentNode (moved e c choiceId now), moved e c choiceId now,
            stored_after e st sc c choiceId now)"
proof -
  from nd obtain sc' ns n where e: "currentScenario e = Some sc'" "nodes sc' = Some ns"
    "currentNode e = Some n" "n \<noteq> []" "map_of ns n = Some nd"
    by (rule getCurrentNode_SomeD)
  with sc have ns: "nodes sc = Some ns" by simp
  let ?e2 = "moved e c choiceId now"
  have sc2: "currentScenario ?e2 = Some sc" by (simp add: sc)
  obtain r where r: "getCurrentNode ?e2 = Inr r"
    using getCurrentNode_loaded [OF sc2 ns] by blast
  have comp: "isScenarioComplete ?e2 =
           Inr (case r of ANode nd \<Rightarrow> ntype nd = ''resolution'' | _ \<Rightarrow> False)"
    by (rule isScenarioComplete_loaded [OF r])
  show ?thesis
    unfolding makeChoice_def
    using sc nd cs c e(3,4) r comp
    by (cases r; cases "cstrategy c")
       (simp_all add: Let_def stored_after_def entry_of_def moved_def)
qed

lemma moved_no_TypeError:
  assumes "getCurrentNode e = Inr (ANode nd)"
  obtains r where "getCurrentNode (moved e c choiceId now) = Inr r"
proof -
  from assms obtain sc ns where e: "currentScenario e = Some sc" "nodes sc = Some ns"
    by (rule getCurrentNode_SomeD)
  have "currentScenario (moved e c choiceId now) = Some sc"
    by (simp add: e)
  from getCurrentNode_loaded [OF this e(2)] that show ?thesis by blast
qed

lemma makeChoice_cases:
  obtains (failed) err where "makeChoice e st choiceId now = (Inl err, e, st)"
  | (found) sc nd cs c r where "currentScenario e = Some sc" "getCurrentNode e = Inr (ANode nd)"
      "choices nd = Some cs" "find (\<lambda>c. cid c = choiceId) cs = Some c"
      "getCurrentNode (moved e c choiceId now) = Inr r"
      "makeChoice e st choiceId now =
         (Inr r, moved e c choiceId now, stored_after e st sc c choiceId now)"
proof (cases "currentScenario e")
  case None
  then show ?thesis using failed by (simp add: makeChoice_def)
next
  case (Some sc)
  note sc = this
  show ?thesis
  proof (cases "truthy (currentNode e)")
    case False
    then show ?thesis using sc failed by (simp add: makeChoice_def)
  next
    case True
    show ?thesis
    proof (cases "getCurrentNode e")
      case (Inl a)
      then show ?thesis using sc True failed by (simp add: makeChoice_def)
    next
      case (Inr r)
      show ?thesis
      proof (cases r)
        case NoNode
        then show ?thesis using sc True Inr failed by (simp add: makeChoice_def)
      next
        case InheritedMember
        then show ?thesis using sc True Inr failed by (simp add: makeChoice_def)
      next
        case (ANode nd)
        with Inr have g: "getCurrentNode e = Inr (ANode nd)" by simp
        show ?thesis
        proof (cases "choices nd")
          case None
          then show ?thesis using sc True g failed by (simp add: makeChoice_def)
        next
          case (Some cs)
          note cs = this
          show ?thesis
          proof (cases "find (\<lambda>c. cid c = choiceId) cs")
            case None
            then show ?thesis using sc True g cs failed by (simp add: makeChoice_def)
          next
            case (Some c)
            obtain r' where r': "getCurrentNode (moved e c choiceId now) = Inr r'"
              using g by (rule moved_no_TypeError)
            from makeChoice_found [OF sc g cs Some, of st now] r'
            have "makeChoice e st choiceId now =
                    (Inr r', moved e c choiceId now, stored_after e st sc c choiceId now)"
              by simp
            with sc g cs Some r' show ?thesis by (rule found)
          qed
        qed
      qed
    qed
  qed
qed

lemma makeChoice_failure_unchanged:
  assumes "fst (makeChoice e st choiceId now) = Inl err"
  shows "snd (makeChoice e st choiceId now) = (e, st)"
proof (cases rule: makeChoice_cases [of e st choiceId now])
  case (failed err')
  then show ?thesis by simp
next
  case (found sc nd cs c r)
  with assms show ?thesis by simp
qed

lemma find_None_iff_cid: "find (\<lambda>c. cid c = i) cs = None \<longleftrightarrow> i \<notin> cid ` set cs"
  by (auto simp: find_None_iff)

text \<open>
  C1, as the code has it.  On a node that has a choice list, \<^verbatim>\<open>makeChoice\<close> with an id
  that is not in the list throws \<^verbatim>\<open>Choice \<dots> not found\<close>; on a node without a choice
  list it throws \<^verbatim>\<open>Current node has no choices\<close> for any id.  An id that is in the
  list is accepted whether or not \<^verbatim>\<open>getAvailableChoices\<close> would return its choice:
  the call returns normally, pushes the history entry and moves to the choice's
  \<^verbatim>\<open>nextNode\<close>.  Every call that throws leaves the engine and the storage as they
  were.
\<close>

theorem makeChoice_unknown_or_listed:
  "(currentScenario e = Some sc \<and> getCurrentNode e = Inr (ANode nd) \<longrightarrow>
      (choices nd = None \<longrightarrow> makeChoice e st choiceId now = (Inl NoChoices, e, st)) \<and>
      (\<forall>cs. choices nd = Some cs \<longrightarrow>
         (choiceId \<notin> cid ` set cs \<longrightarrow>
            makeChoice e st choiceId now = (Inl (ChoiceNotFound choiceId), e, st)) \<and>
         (\<forall>c. find (\<lambda>c. cid c = choiceId) cs = Some c \<longrightarrow>
            (\<exists>r st'. makeChoice e st choiceId now =
               (Inr r,
                e\<lparr> choiceHistory := choiceHistory e @
                      [\<lparr> h_nodeId = currentNode e, h_choiceId = choiceId,
                         h_choiceText = ctext c, h_strategy = cstrategy c,
                         h_timestamp = now \<rparr>],
                   currentNode := nextNode c \<rparr>, st'))))) \<and>
   (\<forall>err. fst (makeChoice e st choiceId now) = Inl err \<longrightarrow>
      snd (makeChoice e st choiceId now) = (e, st))"
proof (intro conjI allI impI)
  assume a: "currentScenario e = Some sc \<and> getCurrentNode e = Inr (ANode nd)"
  then obtain n where n: "currentNode e = Some n" "n \<noteq> []"
    by (auto elim: getCurrentNode_SomeD)
  assume "choices nd = None"
  with a n show "makeChoice e st choiceId now = (Inl NoChoices, e, st)"
    by (simp add: makeChoice_def)
next
  fix cs
  assume a: "currentScenario e = Some sc \<and> getCurrentNode e = Inr (ANode nd)"
    and cs: "choices nd = Some cs"
  then obtain n where n: "currentNode e = Some n" "n \<noteq> []"
    by (auto elim: getCurrentNode_SomeD)
  assume "choiceId \<notin> cid ` set cs"
  then have "find (\<lambda>c. cid c = choiceId) cs = None" by (simp add: find_None_iff_cid)
  with a cs n show "makeChoice e st choiceId now = (Inl (ChoiceNotFound choiceId), e, st)"
    by (simp add: makeChoice_def)
next
  fix cs c
  assume a: "currentScenario e = Some sc \<and> getCurrentNode e = Inr (ANode nd)"
    and cs: "choices nd = Some cs"
    and c: "find (\<lambda>c. cid c = choiceId) cs = Some c"
  from a have sc: "currentScenario e = Some sc" and nd: "getCurrentNode e = Inr (ANode nd)"
    by simp_all
  obtain r where "getCurrentNode (moved e c choiceId now) = Inr r"
    using nd by (rule moved_no_TypeError)
  with makeChoice_found [OF sc nd cs c, of st now]
  show "\<exists>r st'. makeChoice e st choiceId now =
               (Inr r,
                e\<lparr> choiceHistory := choiceHistory e @
                      [\<lparr> h_nodeId = currentNode e, h_choiceId = choiceId,
                         h_choiceText = ctext c, h_strategy = cstrategy c,
                         h_timestamp = now \<rparr>],
                   currentNode := nextNode c \<rparr>, st')"
    by (simp add: moved_def entry_of_def)
next
  fix err assume "fst (makeChoice e st choiceId now) = Inl err"
  then show "snd (makeChoice e st choiceId now) = (e, st)"
    by (rule makeChoice_failure_unchanged)
qed

theorem makeChoice_unknown_or_listed_witness:
  "currentScenario demoEngine = Some demoScenario \<and>
   getCurrentNode demoEngine = Inr (ANode nodeStart) \<and>
   choices nodeStart = Some [choiceA, choiceC] \<and>
   ''Z'' \<notin> cid ` set [choiceA, choiceC] \<and>
   makeChoice demoEngine storageManager ''Z'' ''t0'' = (Inl (ChoiceNotFound ''Z''), demoEngine, storageManager) \<and>
   find (\<lambda>c. cid c = ''C'') [choiceA, choiceC] = Some choiceC \<and>
   \<not> choiceFilter (choiceHistory demoEngine) choiceC \<and>
   (\<exists>r st'. makeChoice demoEngine storageManager ''C'' ''t0'' =
      (Inr r,
       demoEngine\<lparr> choiceHistory := choiceHistory demoEngine @
                      [\<lparr> h_nodeId = currentNode demoEngine, h_choiceId = ''C'',
                         h_choiceText = ctext choiceC, h_strategy = cstrategy choiceC,
                         h_timestamp = ''t0'' \<rparr>],
                   currentNode := nextNode choiceC \<rparr>, st')) \<and>
   currentScenario demoEngineY = Some demoScenario \<and>
   getCurrentNode demoEngineY = Inr (ANode nodeY) \<and>
   choices nodeY = None \<and>
   makeChoice demoEngineY demoStoreY ''A'' ''t2'' = (Inl NoChoices, demoEngineY, demoStoreY) \<and>
   snd (makeChoice demoEngineY demoStoreY ''A'' ''t2'') = (demoEngineY, demoStoreY)"
proof -
  have h1: "currentScenario demoEngine = Some demoScenario" by code_simp
  have h2: "getCurrentNode demoEngine = Inr (ANode nodeStart)" by code_simp
  have h3: "choices nodeStart = Some [choiceA, choiceC]" by (simp add: nodeStart_def)
  have h4: "''Z'' \<notin> cid ` set [choiceA, choiceC]" by (simp add: choiceA_def choiceC_def)
  have h5: "find (\<lambda>c. cid c = ''C'') [choiceA, choiceC] = Some choiceC"
    by (simp add: choiceA_def choiceC_def)
  have h6: "\<not> choiceFilter (choiceHistory demoEngine) choiceC" by code_simp
  have k1: "currentScenario demoEngineY = Some demoScenario" by code_simp
  have k2: "getCurrentNode demoEngineY = Inr (ANode nodeY)" by code_simp
  have k3: "choices nodeY = None" by (simp add: nodeY_def)
  from makeChoice_unknown_or_listed [of demoEngine demoScenario nodeStart storageManager "''Z''" "''t0''"]
    h1 h2 h3 h4
  have a: "makeChoice demoEngine storageManager ''Z'' ''t0'' = (Inl (ChoiceNotFound ''Z''), demoEngine, storageManager)"
    by blast
  from makeChoice_unknown_or_listed [of demoEngine demoScenario nodeStart storageManager "''C''" "''t0''"]
    h1 h2 h3 h5
  have b: "\<exists>r st'. makeChoice demoEngine storageManager ''C'' ''t0'' =
      (Inr r,
       demoEngine\<lparr> choiceHistory := choiceHistory demoEngine @
                      [\<lparr> h_nodeId = currentNode demoEngine, h_choiceId = ''C'',
                         h_choiceText = ctext choiceC, h_strategy = cstrategy choiceC,
                         h_timestamp = ''t0'' \<rparr>],
                   currentNode := nextNode choiceC \<rparr>, st')"
    by blast
  note t = makeChoice_unknown_or_listed [of demoEngineY demoScenario nodeY demoStoreY "''A''"
      "''t2''"]
  from t k1 k2 k3
  have c: "makeChoice demoEngineY demoStoreY ''A'' ''t2'' =
             (Inl NoChoices, demoEngineY, demoStoreY)"
    by blast
  then have "fst (makeChoice demoEngineY demoStoreY ''A'' ''t2'') = Inl NoChoices" by simp
  with t have d: "snd (makeChoice demoEngineY demoStoreY ''A'' ''t2'') =
                    (demoEngineY, demoStoreY)"
    by blast
  from h1 h2 h3 h4 h5 h6 a b k1 k2 k3 c d show ?thesis by blast
qed

text \<open>
  C1 as it is worded fails on a gated choice: on \<^verbatim>\<open>start\<close> of \<open>demoScenario\<close> with
  an empty history, \<^verbatim>\<open>C\<close> is in the node's choice list and is not among the available
  choices, and \<^verbatim>\<open>makeChoice\<close> returns the resolution node and moves the engine there.
\<close>

theorem makeChoice_accepts_gated_choice:
  "''C'' \<in> cid ` set (rawChoices demoEngine) \<and>
   fst (getAvailableChoices demoEngine) = Inr [choiceA] \<and>
   fst (makeChoice demoEngine storageManager ''C'' ''t0'') = Inr (ANode nodeY) \<and>
   currentNode (fst (snd (makeChoice demoEngine storageManager ''C'' ''t0''))) = Some ''nodeY'' \<and>
   length (choiceHistory (fst (snd (makeChoice demoEngine storageManager ''C'' ''t0'')))) = 1"
  by code_simp

section \<open>getAvailableChoices\<close>

lemma choiceFilter_spec: "choiceFilter hist c = spec_available hist c"
  unfolding choiceFilter_def spec_available_def listed_def
  by (auto simp add: list_all_iff list_ex_iff image_iff split: option.splits)

lemma choiceFilter_spec_fun: "choiceFilter hist = spec_available hist"
  by (rule ext) (rule choiceFilter_spec)

text \<open>
  C2.  \<^verbatim>\<open>getAvailableChoices\<close> returns the choices of the current node that are
  available in the specification's sense, in the node's order (it is the node's list,
  filtered), and leaves the engine as it is.  If there is no current node or it has no
  choice list, the result is empty.
\<close>

theorem getAvailableChoices_spec:
  "getAvailableChoices e =
     (case getCurrentNode e of
        Inl err \<Rightarrow> Inl err
      | Inr nd \<Rightarrow> Inr (filter (spec_available (choiceHistory e)) (nodeChoices nd)), e)"
  unfolding getAvailableChoices_def nodeChoices_def
  by (auto simp add: choiceFilter_spec_fun split: sum.splits option.splits node_value.splits)

theorem getAvailableChoices_spec_witness:
  "getCurrentNode demoEngine = Inr (ANode nodeStart) \<and>
   nodeChoices (ANode nodeStart) = [choiceA, choiceC] \<and>
   spec_available (choiceHistory demoEngine) choiceA \<and>
   \<not> spec_available (choiceHistory demoEngine) choiceC \<and>
   getAvailableChoices demoEngine = (Inr [choiceA], demoEngine)"
proof -
  have h1: "getCurrentNode demoEngine = Inr (ANode nodeStart)" by code_simp
  have h2: "nodeChoices (ANode nodeStart) = [choiceA, choiceC]"
    by (simp add: nodeChoices_def nodeStart_def)
  have h3: "choiceHistory demoEngine = []" by code_simp
  have h4: "spec_available [] choiceA"
    by (simp add: spec_available_def choiceA_def)
  have h5: "\<not> spec_available [] choiceC"
    by (simp add: spec_available_def choiceC_def listed_def)
  from getAvailableChoices_spec [of demoEngine] h1 h2 h3 h4 h5
  show ?thesis by simp
qed

section \<open>restartScenario\<close>

text \<open>
  C6.  With a scenario loaded, \<^verbatim>\<open>restartScenario\<close> keeps the scenario, makes
  \<^verbatim>\<open>start\<close> the current node and empties the history, whatever the node and the
  history were; it has no branch that throws.
\<close>

theorem restartScenario_spec:
  assumes "currentScenario e = Some sc"
  shows "currentScenario (fst (restartScenario e st)) = Some sc \<and>
         currentNode (fst (restartScenario e st)) = Some ''start'' \<and>
         choiceHistory (fst (restartScenario e st)) = [] \<and>
         length (choiceHistory (fst (restartScenario e st))) = 0"
  using assms by (simp add: restartScenario_def Let_def)

theorem restartScenario_spec_witness:
  "currentScenario demoEngineY = Some demoScenario \<and>
   currentNode demoEngineY = Some ''nodeY'' \<and>
   length (choiceHistory demoEngineY) = 2 \<and>
   currentScenario (fst (restartScenario demoEngineY demoStoreY)) = Some demoScenario \<and>
   currentNode (fst (restartScenario demoEngineY demoStoreY)) = Some ''start'' \<and>
   choiceHistory (fst (restartScenario demoEngineY demoStoreY)) = []"
proof -
  have h1: "currentScenario demoEngineY = Some demoScenario" by code_simp
  have h2: "currentNode demoEngineY = Some ''nodeY''" by code_simp
  have h3: "length (choiceHistory demoEngineY) = 2" by code_simp
  from restartScenario_spec [OF h1, of demoStoreY] h1 h2 h3 show ?thesis by blast
qed

section \<open>resumeFromProgress\<close>

text \<open>
  C8.  \<^verbatim>\<open>resumeFromProgress\<close> throws exactly when \<^verbatim>\<open>loadScenario\<close> does, with the
  same error.  When the scenario loads, it returns normally, whatever the snapshot holds,
  and the current node and the history are the snapshot's (an absent history is the empty
  one); no node id of the snapshot is looked at.
\<close>

theorem resumeFromProgress_spec:
  "(\<forall>err e1. loadScenario fetch e (p_currentScenario saved) = (Inl err, e1) \<longrightarrow>
      resumeFromProgress fetch e saved = (Inl err, e1)) \<and>
   (\<forall>sc e1. loadScenario fetch e (p_currentScenario saved) = (Inr sc, e1) \<longrightarrow>
      currentScenario e1 = Some sc \<and>
      (\<exists>r. resumeFromProgress fetch e saved =
         (Inr r, e1\<lparr> currentNode := p_currentNode saved,
                      choiceHistory :=
                        (case p_choiceHistory saved of None \<Rightarrow> [] | Some h \<Rightarrow> h) \<rparr>)))"
proof (intro conjI allI impI)
  fix err e1
  assume "loadScenario fetch e (p_currentScenario saved) = (Inl err, e1)"
  then show "resumeFromProgress fetch e saved = (Inl err, e1)"
    by (simp add: resumeFromProgress_def)
next
  fix sc e1
  assume l: "loadScenario fetch e (p_currentScenario saved) = (Inr sc, e1)"
  from loadScenario_InrD [OF l] have v: "validateScenario sc"
    and e1: "currentScenario e1 = Some sc" by simp_all
  show "currentScenario e1 = Some sc" by (rule e1)
  from v obtain ns where ns: "nodes sc = Some ns" by (rule validateScenario_nodes)
  let ?e3 = "e1\<lparr> currentNode := p_currentNode saved,
                  choiceHistory :=
                    (case p_choiceHistory saved of None \<Rightarrow> [] | Some h \<Rightarrow> h) \<rparr>"
  have "currentScenario ?e3 = Some sc" using e1 by simp
  from getCurrentNode_loaded [OF this ns]
  obtain r where r: "getCurrentNode ?e3 = Inr r" by blast
  then show "\<exists>r. resumeFromProgress fetch e saved = (Inr r, ?e3)"
    using l by (simp add: resumeFromProgress_def Let_def)
qed

theorem resumeFromProgress_spec_witness:
  "loadScenario demoFetch readyEngine (p_currentScenario staleSnapshot) =
     (Inr demoScenario, demoEngine) \<and>
   map_of [(''start'', nodeStart), (''nodeX'', nodeX), (''nodeY'', nodeY)] ''ghost'' = None \<and>
   resumeFromProgress demoFetch readyEngine staleSnapshot =
     (Inr NoNode, demoEngine\<lparr> currentNode := Some ''ghost'',
                   choiceHistory :=
                     [\<lparr> h_nodeId = Some ''gone'', h_choiceId = ''Q'', h_choiceText = ''Old'',
                        h_strategy = None, h_timestamp = ''t0'' \<rparr>] \<rparr>) \<and>
   loadScenario demoFetch readyEngine (p_currentScenario lostSnapshot) =
     (Inl (LoadFailed 404), readyEngine) \<and>
   resumeFromProgress demoFetch readyEngine lostSnapshot = (Inl (LoadFailed 404), readyEngine)"
proof -
  have h1: "loadScenario demoFetch readyEngine (p_currentScenario staleSnapshot) =
     (Inr demoScenario, demoEngine)" by code_simp
  have h2: "map_of [(''start'', nodeStart), (''nodeX'', nodeX), (''nodeY'', nodeY)] ''ghost'' = None"
    by simp
  have h3: "loadScenario demoFetch readyEngine (p_currentScenario lostSnapshot) =
     (Inl (LoadFailed 404), readyEngine)" by code_simp
  have h4: "p_currentNode staleSnapshot = Some ''ghost''"
    "p_choiceHistory staleSnapshot = Some
         [\<lparr> h_nodeId = Some ''gone'', h_choiceId = ''Q'', h_choiceText = ''Old'',
            h_strategy = None, h_timestamp = ''t0'' \<rparr>]"
    by (simp_all add: staleSnapshot_def)
  from resumeFromProgress_spec [of demoFetch readyEngine staleSnapshot] h1
  obtain r where r: "resumeFromProgress demoFetch readyEngine staleSnapshot =
     (Inr r, demoEngine\<lparr> currentNode := p_currentNode staleSnapshot,
                choiceHistory :=
                  (case p_choiceHistory staleSnapshot of None \<Rightarrow> [] | Some h \<Rightarrow> h) \<rparr>)"
    by blast
  have "fst (resumeFromProgress demoFetch readyEngine staleSnapshot) = Inr NoNode" by code_simp
  with r have "r = NoNode" by simp
  with r h4 have a: "resumeFromProgress demoFetch readyEngine staleSnapshot =
     (Inr NoNode, demoEngine\<lparr> currentNode := Some ''ghost'',
                   choiceHistory :=
                     [\<lparr> h_nodeId = Some ''gone'', h_choiceId = ''Q'', h_choiceText = ''Old'',
                        h_strategy = None, h_timestamp = ''t0'' \<rparr>] \<rparr>)"
    by simp
  from resumeFromProgress_spec [of demoFetch readyEngine lostSnapshot] h3
  have b: "resumeFromProgress demoFetch readyEngine lostSnapshot =
             (Inl (LoadFailed 404), readyEngine)"
    by blast
  from h1 h2 a h3 b show ?thesis by blast
qed

section \<open>getProgress\<close>

lemma totalNodes_card: "length (remdups (map fst ns)) = card (dom (map_of ns))"
  by (simp add: dom_map_of_conv_image_fst card_set [symmetric])

text \<open>
  C9.  For a loaded scenario that passed validation, \<^verbatim>\<open>getProgress\<close> returns a record
  whose \<^verbatim>\<open>progressPercent\<close> is the smaller of 100 and
  \<open>100 * (history length + 1) / number of nodes\<close>, in rational arithmetic.
\<close>

theorem getProgress_percent:
  assumes "currentScenario e = Some sc" and "validateScenario sc" and "nodes sc = Some ns"
  shows "\<exists>p. getProgress e = Inr (Some p) \<and>
           progressPercent p =
             min 100 (100 * (of_nat (length (choiceHistory e)) + 1) /
                        of_nat (card (dom (map_of ns))))"
proof -
  from assms(2,3) have "map_of ns ''start'' \<noteq> None"
    by (auto elim: validateScenario_nodes)
  then have "''start'' \<in> dom (map_of ns)" by auto
  then have "card (dom (map_of ns)) \<noteq> 0"
    using finite_dom_map_of [of ns] by auto
  then have t: "length (remdups (map fst ns)) \<noteq> 0" by (simp add: totalNodes_card)
  obtain r where r: "getCurrentNode e = Inr r"
    using getCurrentNode_loaded [OF assms(1,3)] by blast
  have c: "isScenarioComplete e =
             Inr (case r of ANode nd \<Rightarrow> ntype nd = ''resolution'' | _ \<Rightarrow> False)"
    by (rule isScenarioComplete_loaded [OF r])
  show ?thesis
    using assms(1,3) t c
    by (simp add: getProgress_def Let_def totalNodes_card min.commute algebra_simps)
qed

theorem getProgress_percent_witness:
  "currentScenario demoEngineX = Some demoScenario \<and>
   validateScenario demoScenario \<and>
   nodes demoScenario = Some [(''start'', nodeStart), (''nodeX'', nodeX), (''nodeY'', nodeY)] \<and>
   length (choiceHistory demoEngineX) = 1 \<and>
   card (dom (map_of [(''start'', nodeStart), (''nodeX'', nodeX), (''nodeY'', nodeY)])) = 3 \<and>
   (\<exists>p. getProgress demoEngineX = Inr (Some p) \<and> progressPercent p = 200 / 3)"
proof -
  have h1: "currentScenario demoEngineX = Some demoScenario" by code_simp
  have h2: "validateScenario demoScenario" by code_simp
  have h3: "nodes demoScenario =
              Some [(''start'', nodeStart), (''nodeX'', nodeX), (''nodeY'', nodeY)]"
    by (simp add: demoScenario_def)
  have h4: "length (choiceHistory demoEngineX) = 1" by code_simp
  have h5: "card (dom (map_of [(''start'', nodeStart), (''nodeX'', nodeX), (''nodeY'', nodeY)])) = 3"
    by (simp add: dom_map_of_conv_image_fst)
  from getProgress_percent [OF h1 h2 h3] h4 h5
  have "\<exists>p. getProgress demoEngineX = Inr (Some p) \<and> progressPercent p = 200 / 3"
    by simp
  with h1 h2 h3 h4 h5 show ?thesis by blast
qed

section \<open>Completion is recorded once\<close>










section \<open>Going back undoes advancing\<close>

lemma goBack_nonempty:
  assumes "choiceHistory e \<noteq> []" "currentScenario e = Some sc"
  shows "goBack e st =
           (getCurrentNode (e\<lparr> choiceHistory := butlast (choiceHistory e),
                                currentNode := h_nodeId (last (choiceHistory e)) \<rparr>),
            e\<lparr> choiceHistory := butlast (choiceHistory e),
               currentNode := h_nodeId (last (choiceHistory e)) \<rparr>,
            snd (saveProgress st (sid sc) (h_nodeId (last (choiceHistory e)))
                   (butlast (choiceHistory e))))"
  using assms unfolding goBack_def
  by (simp add: Let_def split: sum.splits)

lemma goBack_after_moved:
  assumes "currentScenario e = Some sc"
  shows "fst (snd (goBack (moved e c choiceId now) st)) = e"
proof -
  have "choiceHistory (moved e c choiceId now) \<noteq> []"
    "currentScenario (moved e c choiceId now) = Some sc"
    using assms by simp_all
  from goBack_nonempty [OF this, of st]
  show ?thesis by (simp add: moved_def entry_of_def)
qed

lemma advance_all_ConsD:
  assumes "advance_all (e, st) ((choiceId, now) # rest) = Some s'"
  obtains nd e1 st1 where "makeChoice e st choiceId now = (Inr nd, e1, st1)"
    "advance_all (e1, st1) rest = Some s'"
  using assms
  by (auto split: sum.splits if_splits prod.splits)

lemma advance_all_back:
  "advance_all (e, st) steps = Some s' \<Longrightarrow> fst ((goBack_step ^^ length steps) s') = e"
proof (induction steps arbitrary: e st)
  case Nil
  then show ?case by auto
next
  case (Cons step rest)
  obtain choiceId now where step: "step = (choiceId, now)" by (cases step)
  from Cons.prems obtain nd e1 st1
    where m: "makeChoice e st choiceId now = (Inr nd, e1, st1)"
      and a: "advance_all (e1, st1) rest = Some s'"
    unfolding step by (rule advance_all_ConsD)
  from Cons.IH [OF a] have undone: "fst ((goBack_step ^^ length rest) s') = e1" .
  from m obtain sc c where sc: "currentScenario e = Some sc"
    and e1: "e1 = moved e c choiceId now"
    by (cases rule: makeChoice_cases [of e st choiceId now]) auto
  have "fst (goBack_step ((goBack_step ^^ length rest) s')) =
          fst (snd (goBack e1 (snd ((goBack_step ^^ length rest) s'))))"
    by (simp add: goBack_step_def undone)
  also have "\<dots> = e"
    unfolding e1 using sc by (rule goBack_after_moved)
  finally show ?case by simp
qed

text \<open>
  C4.  From the state in which \<^verbatim>\<open>loadScenario\<close> leaves the engine, after any run of
  \<^verbatim>\<open>makeChoice\<close> calls that each return normally with an id that
  \<^verbatim>\<open>getAvailableChoices\<close> returned, as many calls of \<^verbatim>\<open>goBack\<close> bring the engine
  back to that state: the current node is \<^verbatim>\<open>start\<close> and the history is empty.
\<close>

theorem goBack_round_trip:
  assumes "loadScenario fetch e0 scenarioId = (Inr sc, e)"
    and "advance_all (e, st) steps = Some s'"
  shows "currentNode (fst ((goBack_step ^^ length steps) s')) = Some ''start'' \<and>
         choiceHistory (fst ((goBack_step ^^ length steps) s')) = [] \<and>
         fst ((goBack_step ^^ length steps) s') = e"
proof -
  from loadScenario_InrD [OF assms(1)]
  have "currentNode e = Some ''start''" "choiceHistory e = []" by simp_all
  with advance_all_back [OF assms(2)] show ?thesis by simp
qed

theorem goBack_round_trip_witness:
  "loadScenario demoFetch readyEngine (Some ''scenario-001'') = (Inr demoScenario, demoEngine) \<and>
   advance_all (demoEngine, storageManager) [(''A'', ''t0''), (''B'', ''t1'')] =
     Some (demoEngineY, demoStoreY) \<and>
   length (choiceHistory demoEngineY) = 2 \<and>
   currentNode (fst (goBack_step (goBack_step (demoEngineY, demoStoreY)))) = Some ''start'' \<and>
   choiceHistory (fst (goBack_step (goBack_step (demoEngineY, demoStoreY)))) = []"
proof -
  have h1: "loadScenario demoFetch readyEngine (Some ''scenario-001'') =
              (Inr demoScenario, demoEngine)" by code_simp
  have h2: "advance_all (demoEngine, storageManager) [(''A'', ''t0''), (''B'', ''t1'')] =
              Some (demoEngineY, demoStoreY)" by code_simp
  have h3: "length (choiceHistory demoEngineY) = 2" by code_simp
  have n: "(goBack_step ^^ length [(''A'', ''t0''), (''B'', ''t1'')]) (demoEngineY, demoStoreY) =
             goBack_step (goBack_step (demoEngineY, demoStoreY))"
    by simp
  from goBack_round_trip [OF h1 h2]
  have "currentNode (fst (goBack_step (goBack_step (demoEngineY, demoStoreY)))) = Some ''start'' \<and>
        choiceHistory (fst (goBack_step (goBack_step (demoEngineY, demoStoreY)))) = []"
    unfolding n by blast
  with h1 h2 h3 show ?thesis by blast
qed

section \<open>The current node stays in the scenario\<close>

lemma structurally_valid_next:
  assumes "validateScenario sc" "nodes sc = Some ns" "map_of ns n = Some nd"
    "choices nd = Some cs" "c \<in> set cs" "nextNode c = Some m" "m \<noteq> []"
    and own: "noInheritedTarget sc"
  shows "map_of ns m \<noteq> None"
proof -
  from assms(3) have "(n, nd) \<in> set ns" by (rule map_of_SomeD)
  moreover from assms(4,5) have "c \<in> set (nodeChoices (ANode nd))"
    by (simp add: nodeChoices_def)
  moreover from assms(1,2) have
    "\<forall>(nodeId, nd) \<in> set ns. \<forall>c \<in> set (nodeChoices (ANode nd)).
       case nextNode c of None \<Rightarrow> True | Some n \<Rightarrow> n = [] \<or> map_of ns n \<noteq> None"
    by (simp add: validateScenario_iff [OF own] structurally_valid_def)
  ultimately show ?thesis using assms(6,7) by fastforce
qed

lemma everyChoiceHasNext_next:
  assumes "everyChoiceHasNext sc" "nodes sc = Some ns" "map_of ns n = Some nd"
    "choices nd = Some cs" "c \<in> set cs"
  obtains m where "nextNode c = Some m" "m \<noteq> []"
proof -
  from assms(3) have "(n, nd) \<in> set ns" by (rule map_of_SomeD)
  moreover from assms(4,5) have "c \<in> set (nodeChoices (ANode nd))"
    by (simp add: nodeChoices_def)
  moreover from assms(1,2) have
    "\<forall>(nodeId, nd) \<in> set ns. \<forall>c \<in> set (nodeChoices (ANode nd)). truthy (nextNode c)"
    by (simp add: everyChoiceHasNext_def)
  ultimately have "truthy (nextNode c)" by fastforce
  then show ?thesis using that by (cases "nextNode c") auto
qed

lemma reachable_invariant:
  assumes "reachable sc s" and v: "validateScenario sc" and ns: "nodes sc = Some ns"
  shows "currentScenario (fst s) = Some sc \<and>
         (\<forall>h \<in> set (choiceHistory (fst s)).
            \<exists>n. h_nodeId h = Some n \<and> n \<noteq> [] \<and> map_of ns n \<noteq> None) \<and>
         (everyChoiceHasNext sc \<and> noInheritedTarget sc \<longrightarrow>
            (\<exists>n. currentNode (fst s) = Some n \<and> n \<noteq> [] \<and> map_of ns n \<noteq> None))"
  using assms(1)
proof (induction rule: reachable.induct)
  case (loaded fetch e0 scenarioId e st)
  from v ns have "map_of ns ''start'' \<noteq> None"
    by (auto elim: validateScenario_nodes)
  with loadScenario_InrD [OF loaded] show ?case by simp
next
  case (advanced e st choiceId now r s')
  show ?case
  proof (cases rule: makeChoice_cases [of e st choiceId now])
    case (failed err)
    with advanced show ?thesis by simp
  next
    case (found sc0 nd cs c r0)
    from advanced.IH have cur: "currentScenario e = Some sc" by simp
    from found(2) obtain sc1 ns1 n where n: "currentScenario e = Some sc1"
      "nodes sc1 = Some ns1" "currentNode e = Some n" "n \<noteq> []" "map_of ns1 n = Some nd"
      by (rule getCurrentNode_SomeD)
    with cur ns have here: "map_of ns n = Some nd" by simp
    from found(4) have c: "c \<in> set cs" by (auto simp add: find_Some_iff)
    from found(6) advanced.hyps(2) have s': "s' = (moved e c choiceId now,
        stored_after e st sc0 c choiceId now)" by simp
    have "everyChoiceHasNext sc \<and> noInheritedTarget sc \<longrightarrow>
            (\<exists>m. nextNode c = Some m \<and> m \<noteq> [] \<and> map_of ns m \<noteq> None)"
    proof
      assume "everyChoiceHasNext sc \<and> noInheritedTarget sc"
      then have "everyChoiceHasNext sc" and own: "noInheritedTarget sc" by simp_all
      from everyChoiceHasNext_next [OF this(1) ns here found(3) c]
      obtain m where m: "nextNode c = Some m" "m \<noteq> []" by blast
      from structurally_valid_next [OF v ns here found(3) c m own]
      show "\<exists>m. nextNode c = Some m \<and> m \<noteq> [] \<and> map_of ns m \<noteq> None"
        using m by simp
    qed
    with advanced.IH n(3,4) here show ?thesis
      by (auto simp add: s' entry_of_def)
  qed
next
  case (went_back e st r s')
  from went_back.IH have cur: "currentScenario e = Some sc" by simp
  show ?case
  proof (cases "choiceHistory e = []")
    case True
    with went_back show ?thesis by (simp add: goBack_def)
  next
    case False
    from goBack_nonempty [OF False cur, of st] went_back.hyps(2)
    have "fst s' = e\<lparr> choiceHistory := butlast (choiceHistory e),
                      currentNode := h_nodeId (last (choiceHistory e)) \<rparr>"
      by auto
    moreover from False have "last (choiceHistory e) \<in> set (choiceHistory e)" by simp
    ultimately show ?thesis
      using went_back.IH by (auto dest: in_set_butlastD)
  qed
next
  case (restarted e st s')
  from restarted.IH have cur: "currentScenario e = Some sc" by simp
  from v ns have "map_of ns ''start'' \<noteq> None"
    by (auto elim: validateScenario_nodes)
  with restarted cur show ?case
    by (auto simp add: restartScenario_def Let_def)
qed

text \<open>
  C7, as the code has it.  For a scenario that passed validation, in which every choice
  has a non-empty \<^verbatim>\<open>nextNode\<close> and none sends to a name that the nodes object only
  inherits, the current node names a node of the scenario after loading and after every
  call of \<^verbatim>\<open>makeChoice\<close>, \<^verbatim>\<open>goBack\<close> and \<^verbatim>\<open>restartScenario\<close>.
\<close>

theorem currentNode_stays_valid:
  assumes "validateScenario sc" and "everyChoiceHasNext sc" and "noInheritedTarget sc"
    and "reachable sc (e, st)"
  shows "currentNodeValid e"
proof -
  from assms(1) obtain ns where ns: "nodes sc = Some ns" by (rule validateScenario_nodes)
  from reachable_invariant [OF assms(4,1) ns] assms(2,3) ns
  show ?thesis by (auto simp add: currentNodeValid_def)
qed

theorem currentNode_stays_valid_witness:
  "validateScenario demoScenario \<and> everyChoiceHasNext demoScenario \<and>
   noInheritedTarget demoScenario \<and>
   reachable demoScenario (demoEngineX, demoStoreX) \<and>
   currentNode demoEngineX = Some ''nodeX'' \<and> currentNodeValid demoEngineX"
proof -
  have h1: "validateScenario demoScenario" by code_simp
  have h2: "everyChoiceHasNext demoScenario"
    by (simp add: everyChoiceHasNext_def demoScenario_def nodeChoices_def nodeStart_def
          nodeX_def nodeY_def choiceA_def choiceB_def choiceC_def choiceD_def)
  have h2': "noInheritedTarget demoScenario"
    by (simp add: noInheritedTarget_def demoScenario_def nodeChoices_def nodeStart_def
          nodeX_def nodeY_def choiceA_def choiceB_def choiceC_def choiceD_def property_def)
  have l: "loadScenario demoFetch readyEngine (Some ''scenario-001'') =
             (Inr demoScenario, demoEngine)" by code_simp
  have m: "makeChoice demoEngine storageManager ''A'' ''t0'' =
             (Inr (ANode nodeX), demoEngineX, demoStoreX)"
    by code_simp
  have "reachable demoScenario (demoEngine, storageManager)" using l by (rule reachable.loaded)
  then have h3: "reachable demoScenario (demoEngineX, demoStoreX)"
    using m by (rule reachable.advanced)
  have h4: "currentNode demoEngineX = Some ''nodeX''" by code_simp
  from currentNode_stays_valid [OF h1 h2 h2' h3] h1 h2 h2' h3 h4 show ?thesis by blast
qed

text \<open>
  C7 as it is worded fails: \<open>gapScenario\<close> passes validation, its choice \<^verbatim>\<open>a\<close> has no
  \<^verbatim>\<open>nextNode\<close>, and \<^verbatim>\<open>makeChoice\<close> with \<^verbatim>\<open>a\<close> returns normally and leaves the
  engine with no current node.
\<close>

theorem currentNode_lost_without_nextNode:
  "validateScenario gapScenario \<and>
   reachable gapScenario (snd (makeChoice gapEngine storageManager ''a'' ''t0'')) \<and>
   fst (makeChoice gapEngine storageManager ''a'' ''t0'') = Inr NoNode \<and>
   currentNode (fst (snd (makeChoice gapEngine storageManager ''a'' ''t0''))) = None \<and>
   \<not> currentNodeValid (fst (snd (makeChoice gapEngine storageManager ''a'' ''t0'')))"
proof -
  have h1: "validateScenario gapScenario" by code_simp
  have l: "loadScenario demoFetch readyEngine (Some ''scenario-gap'') =
             (Inr gapScenario, gapEngine)" by code_simp
  have "reachable gapScenario (gapEngine, storageManager)" using l by (rule reachable.loaded)
  moreover have "makeChoice gapEngine storageManager ''a'' ''t0'' =
      (fst (makeChoice gapEngine storageManager ''a'' ''t0''), snd (makeChoice gapEngine storageManager ''a'' ''t0''))"
    by simp
  ultimately have h2: "reachable gapScenario (snd (makeChoice gapEngine storageManager ''a'' ''t0''))"
    by (rule reachable.advanced)
  have h3: "fst (makeChoice gapEngine storageManager ''a'' ''t0'') = Inr NoNode" by code_simp
  have h4: "currentNode (fst (snd (makeChoice gapEngine storageManager ''a'' ''t0''))) = None"
    by code_simp
  have h5: "\<not> currentNodeValid (fst (snd (makeChoice gapEngine storageManager ''a'' ''t0'')))"
    by code_simp
  from h1 h2 h3 h4 h5 show ?thesis by blast
qed

section \<open>goBack\<close>

text \<open>
  In a reachable state of a validated scenario every history entry names a node, so
  \<^verbatim>\<open>goBack\<close> returns \<^verbatim>\<open>null\<close> only when the history is empty.
\<close>

lemma goBack_null_iff_no_history:
  assumes "reachable sc (e, st)" and "validateScenario sc"
  shows "fst (goBack e st) = Inr NoNode \<longleftrightarrow> choiceHistory e = []"
proof (cases "choiceHistory e = []")
  case True
  then show ?thesis by (simp add: goBack_def)
next
  case False
  from assms(2) obtain ns where ns: "nodes sc = Some ns" by (rule validateScenario_nodes)
  from reachable_invariant [OF assms ns]
  have cur: "currentScenario e = Some sc"
    and h: "\<forall>h \<in> set (choiceHistory e).
              \<exists>n. h_nodeId h = Some n \<and> n \<noteq> [] \<and> map_of ns n \<noteq> None"
    by simp_all
  from False have "last (choiceHistory e) \<in> set (choiceHistory e)" by simp
  with h obtain n where n: "h_nodeId (last (choiceHistory e)) = Some n" "n \<noteq> []"
    "map_of ns n \<noteq> None" by blast
  let ?e' = "e\<lparr> choiceHistory := butlast (choiceHistory e),
                 currentNode := h_nodeId (last (choiceHistory e)) \<rparr>"
  have "currentScenario ?e' = Some sc" using cur by simp
  from getCurrentNode_loaded [OF this ns] n
  have "getCurrentNode ?e' = Inr (property ns n)" by simp
  moreover from n(3) have "property ns n \<noteq> NoNode" by (simp add: property_NoNode_iff)
  ultimately have "getCurrentNode ?e' \<noteq> Inr NoNode" by simp
  with goBack_nonempty [OF False cur, of st] n(3) False show ?thesis by auto
qed

text \<open>
  C5, as the code has it.  \<^verbatim>\<open>goBack\<close> has no error for an empty history: it returns
  \<^verbatim>\<open>null\<close>, without throwing, and leaves the engine and the storage as they are.
  With a non-empty history and a scenario loaded it removes the last entry, makes that
  entry's \<^verbatim>\<open>nodeId\<close> the current node, and returns what \<^verbatim>\<open>getCurrentNode\<close> gives
  in the new state, which is no error when the scenario passed validation.  In the states
  reached from a validated scenario by \<^verbatim>\<open>makeChoice\<close>, \<^verbatim>\<open>goBack\<close> and
  \<^verbatim>\<open>restartScenario\<close>, \<^verbatim>\<open>null\<close> is returned only for the empty history.
\<close>

theorem goBack_spec:
  "(choiceHistory e = [] \<longrightarrow> goBack e st = (Inr NoNode, e, st)) \<and>
   (choiceHistory e \<noteq> [] \<and> currentScenario e = Some sc \<longrightarrow>
      fst (snd (goBack e st)) =
        e\<lparr> choiceHistory := butlast (choiceHistory e),
           currentNode := h_nodeId (last (choiceHistory e)) \<rparr> \<and>
      fst (goBack e st) = getCurrentNode (fst (snd (goBack e st))) \<and>
      (validateScenario sc \<longrightarrow> (\<exists>nd. fst (goBack e st) = Inr nd))) \<and>
   (reachable sc (e, st) \<and> validateScenario sc \<longrightarrow>
      (fst (goBack e st) = Inr NoNode \<longleftrightarrow> choiceHistory e = []))"
proof (intro conjI impI)
  assume "choiceHistory e = []"
  then show "goBack e st = (Inr NoNode, e, st)" by (simp add: goBack_def)
next
  assume "reachable sc (e, st) \<and> validateScenario sc"
  then have "reachable sc (e, st)" and "validateScenario sc" by simp_all
  then show "fst (goBack e st) = Inr NoNode \<longleftrightarrow> choiceHistory e = []"
    by (rule goBack_null_iff_no_history)
next
  assume a: "choiceHistory e \<noteq> [] \<and> currentScenario e = Some sc"
  then have g: "goBack e st =
           (getCurrentNode (e\<lparr> choiceHistory := butlast (choiceHistory e),
                                currentNode := h_nodeId (last (choiceHistory e)) \<rparr>),
            e\<lparr> choiceHistory := butlast (choiceHistory e),
               currentNode := h_nodeId (last (choiceHistory e)) \<rparr>,
            snd (saveProgress st (sid sc) (h_nodeId (last (choiceHistory e)))
                   (butlast (choiceHistory e))))"
    by (intro goBack_nonempty) simp_all
  show "fst (snd (goBack e st)) =
        e\<lparr> choiceHistory := butlast (choiceHistory e),
           currentNode := h_nodeId (last (choiceHistory e)) \<rparr>"
    by (simp add: g)
  show "fst (goBack e st) = getCurrentNode (fst (snd (goBack e st)))"
    by (simp add: g)
  assume "validateScenario sc"
  then obtain ns where ns: "nodes sc = Some ns" by (rule validateScenario_nodes)
  have "currentScenario (e\<lparr> choiceHistory := butlast (choiceHistory e),
           currentNode := h_nodeId (last (choiceHistory e)) \<rparr>) = Some sc"
    using a by simp
  from getCurrentNode_loaded [OF this ns]
  show "\<exists>nd. fst (goBack e st) = Inr nd" by (simp add: g)
qed

theorem goBack_spec_witness:
  "choiceHistory demoEngine = [] \<and>
   goBack demoEngine storageManager = (Inr NoNode, demoEngine, storageManager) \<and>
   choiceHistory demoEngineX \<noteq> [] \<and>
   currentScenario demoEngineX = Some demoScenario \<and>
   validateScenario demoScenario \<and>
   reachable demoScenario (demoEngineX, demoStoreX) \<and>
   fst (snd (goBack demoEngineX demoStoreX)) = demoEngine \<and>
   fst (goBack demoEngineX demoStoreX) = Inr (ANode nodeStart) \<and>
   fst (goBack demoEngineX demoStoreX) \<noteq> Inr NoNode"
proof -
  have h1: "choiceHistory demoEngine = []" by code_simp
  have h2: "choiceHistory demoEngineX \<noteq> []" by code_simp
  have h3: "currentScenario demoEngineX = Some demoScenario" by code_simp
  have h4: "validateScenario demoScenario" by code_simp
  have h5: "demoEngineX\<lparr> choiceHistory := butlast (choiceHistory demoEngineX),
              currentNode := h_nodeId (last (choiceHistory demoEngineX)) \<rparr> = demoEngine"
    by code_simp
  have h6: "getCurrentNode demoEngine = Inr (ANode nodeStart)" by code_simp
  have l: "loadScenario demoFetch readyEngine (Some ''scenario-001'') =
             (Inr demoScenario, demoEngine)" by code_simp
  have m: "makeChoice demoEngine storageManager ''A'' ''t0'' = (Inr (ANode nodeX), demoEngineX, demoStoreX)"
    by code_simp
  have "reachable demoScenario (demoEngine, storageManager)" using l by (rule reachable.loaded)
  then have h7: "reachable demoScenario (demoEngineX, demoStoreX)"
    using m by (rule reachable.advanced)
  from goBack_spec [of demoEngine storageManager demoScenario] h1
  have a: "goBack demoEngine storageManager = (Inr NoNode, demoEngine, storageManager)" by blast
  note t = goBack_spec [of demoEngineX demoStoreX demoScenario]
  from t h2 h3 h4
  have b: "fst (snd (goBack demoEngineX demoStoreX)) =
             demoEngineX\<lparr> choiceHistory := butlast (choiceHistory demoEngineX),
               currentNode := h_nodeId (last (choiceHistory demoEngineX)) \<rparr>"
    and c: "fst (goBack demoEngineX demoStoreX) =
              getCurrentNode (fst (snd (goBack demoEngineX demoStoreX)))"
    by blast+
  from b h5 have b': "fst (snd (goBack demoEngineX demoStoreX)) = demoEngine" by simp
  from c b' h6 have c': "fst (goBack demoEngineX demoStoreX) = Inr (ANode nodeStart)" by simp
  from t h7 h4 h2 have d: "fst (goBack demoEngineX demoStoreX) \<noteq> Inr NoNode" by blast
  from h1 a h2 h3 h4 h7 b' c' d show ?thesis by blast
qed

text \<open>
  C5 as it is worded fails: on the freshly loaded \<open>demoScenario\<close> the history is empty
  and \<^verbatim>\<open>goBack\<close> returns normally, with \<^verbatim>\<open>null\<close>; no error is raised.
\<close>

theorem goBack_returns_null_without_error:
  "choiceHistory demoEngine = [] \<and>
   fst (goBack demoEngine storageManager) = Inr NoNode \<and>
   \<not> isl (fst (goBack demoEngine storageManager))"
  by code_simp


end
